theory Spec2Isabelle
  imports Main "HOL-Library.FSet"
begin

section \<open>Strings and paths as the Python library computes them\<close>

text \<open>
  \<^verbatim>\<open>monitor.py\<close> works on path strings through \<^verbatim>\<open>pathlib.Path\<close> and \<^verbatim>\<open>os.path\<close>.
  The functions below follow the POSIX flavour of both (separator \<^verbatim>\<open>/\<close>), with
  \<^verbatim>\<open>Path.suffix\<close> as pathlib defines it up to Python 3.13 (the last dot of the final
  component, unless it is the first or the last character). A \<open>string\<close> is a list of
  8-bit characters, so \<open>str_lower\<close> is \<^verbatim>\<open>str.lower\<close> on ASCII text: the letters A to Z are
  mapped, every other character is left as it is.
\<close>

definition lower_char :: "char \<Rightarrow> char" where
  "lower_char c =
     (case map_of (zip ''ABCDEFGHIJKLMNOPQRSTUVWXYZ'' ''abcdefghijklmnopqrstuvwxyz'') c of
        Some d \<Rightarrow> d
      | None \<Rightarrow> c)"

definition str_lower :: "string \<Rightarrow> string" where
  "str_lower s = map lower_char s"

text \<open>\<^verbatim>\<open>s.rfind(c)\<close>: the index of the last occurrence of \<open>c\<close>, or \<open>-1\<close>.\<close>

fun str_rfind :: "string \<Rightarrow> char \<Rightarrow> int" where
  "str_rfind [] c = - 1"
| "str_rfind (x # xs) c =
     (let r = str_rfind xs c in if 0 \<le> r then r + 1 else if x = c then 0 else - 1)"

text \<open>\<^verbatim>\<open>s.split(c)\<close>: the pieces between the occurrences of \<open>c\<close>, empty pieces kept.\<close>

fun str_split :: "char \<Rightarrow> string \<Rightarrow> string list" where
  "str_split c [] = [[]]"
| "str_split c (x # xs) =
     (if x = c then [] # str_split c xs
      else (case str_split c xs of [] \<Rightarrow> [[x]] | y # ys \<Rightarrow> (x # y) # ys))"

text \<open>\<^verbatim>\<open>sep.join(parts)\<close>.\<close>

fun join_str :: "string \<Rightarrow> string list \<Rightarrow> string" where
  "join_str sep [] = []"
| "join_str sep [x] = x"
| "join_str sep (x # y # ys) = x @ sep @ join_str sep (y # ys)"

text \<open>\<^verbatim>\<open>str(n)\<close> for a non-negative integer: its decimal digits.\<close>

definition digit_char :: "nat \<Rightarrow> char" where
  "digit_char d = ''0123456789'' ! d"

function str_nat :: "nat \<Rightarrow> string" where
  "str_nat n =
     (if n < 10 then [digit_char n] else str_nat (n div 10) @ [digit_char (n mod 10)])"
  by pat_completeness auto
termination
  by (relation "measure id") auto

declare str_nat.simps [simp del]

subsection \<open>pathlib\<close>

text \<open>
  \<^verbatim>\<open>Path(p)\<close> keeps the root and the components of \<open>p\<close> that are neither empty nor
  \<^verbatim>\<open>.\<close>; \<^verbatim>\<open>str\<close> joins them again, \<^verbatim>\<open>name\<close> is the last component and
  \<^verbatim>\<open>suffix\<close> is cut from the name.
\<close>

definition path_root :: "string \<Rightarrow> string" where
  "path_root p =
     (if take 2 p = ''//'' \<and> take 3 p \<noteq> ''///'' then ''//''
      else if take 1 p = ''/'' then ''/''
      else [])"

definition path_parts :: "string \<Rightarrow> string list" where
  "path_parts p = filter (\<lambda>x. x \<noteq> [] \<and> x \<noteq> ''.'') (str_split (CHR ''/'') p)"

definition path_str :: "string \<Rightarrow> string" where
  "path_str p =
     (let s = path_root p @ join_str ''/'' (path_parts p) in if s = [] then ''.'' else s)"

definition path_name :: "string \<Rightarrow> string" where
  "path_name p = (case path_parts p of [] \<Rightarrow> [] | x # xs \<Rightarrow> last (x # xs))"

definition path_suffix :: "string \<Rightarrow> string" where
  "path_suffix p =
     (let name = path_name p; i = str_rfind name (CHR ''.'')
      in if 0 < i \<and> i < int (length name) - 1 then drop (nat i) name else [])"

subsection \<open>os.path\<close>

definition os_path_basename :: "string \<Rightarrow> string" where
  "os_path_basename p = (let i = str_rfind p (CHR ''/'') + 1 in drop (nat i) p)"

definition os_path_join :: "string \<Rightarrow> string \<Rightarrow> string" where
  "os_path_join a b =
     (if take 1 b = ''/'' then b
      else if a = [] \<or> last a = CHR ''/'' then a @ b
      else a @ ''/'' @ b)"

text \<open>
  \<^verbatim>\<open>os.path.splitext\<close>: the extension starts at the last dot of the last component,
  but only if some character of that component before the dot is not a dot.
\<close>

definition os_path_splitext :: "string \<Rightarrow> string \<times> string" where
  "os_path_splitext p =
     (let sepIndex = str_rfind p (CHR ''/''); dotIndex = str_rfind p (CHR ''.'')
      in if dotIndex > sepIndex \<and>
            list_ex (\<lambda>c. c \<noteq> CHR ''.'')
              (take (nat (dotIndex - (sepIndex + 1))) (drop (nat (sepIndex + 1)) p))
         then (take (nat dotIndex) p, drop (nat dotIndex) p)
         else (p, []))"

text \<open>What \<^verbatim>\<open>os.path.join\<close> puts in front of a relative name.\<close>

definition join_prefix :: "string \<Rightarrow> string" where
  "join_prefix a = (if a = [] \<or> last a = CHR ''/'' then a else a @ ''/'')"

section \<open>The world around the program\<close>

text \<open>
  The file system is the finite set of the path strings that exist. Everything the
  program does to the outside is appended to a trace, in order.
\<close>

datatype effect =
    Print string
  | Sleep nat
  | Run "string list"
  | Move string string

record world =
  files :: "string fset"
  trace :: "effect list"

datatype py_error = KeyError string | OSError string

fun str_error :: "py_error \<Rightarrow> string" where
  "str_error (KeyError k) = [CHR 0x27] @ k @ [CHR 0x27]"
| "str_error (OSError m) = m"

record completed_process =
  returncode :: int
  stdout :: string
  stderr :: string

text \<open>
  What the program cannot decide is given by the environment: what
  \<^verbatim>\<open>subprocess.run\<close> returns or raises for a command, whether \<^verbatim>\<open>shutil.move\<close>
  raises, and what other processes do to the files while the handler sleeps.
\<close>

record environment =
  subprocess_run :: "string list \<Rightarrow> py_error + completed_process"
  move_error :: "string \<Rightarrow> string \<Rightarrow> string option"
  after_sleep :: "string fset \<Rightarrow> string fset"

definition os_path_exists :: "world \<Rightarrow> string \<Rightarrow> bool" where
  "os_path_exists w p = (p |\<in>| files w)"

text \<open>
  A \<^verbatim>\<open>print\<close> that succeeds: the line is written. (A \<^verbatim>\<open>print\<close> that may raise is
  \<open>print_raising\<close> below.)
\<close>

definition py_print :: "string \<Rightarrow> world \<Rightarrow> world" where
  "py_print line w = w\<lparr>trace := trace w @ [Print line]\<rparr>"

definition time_sleep :: "environment \<Rightarrow> nat \<Rightarrow> world \<Rightarrow> world" where
  "time_sleep env secs w =
     w\<lparr>files := after_sleep env (files w), trace := trace w @ [Sleep secs]\<rparr>"

definition shutil_move :: "environment \<Rightarrow> string \<Rightarrow> string \<Rightarrow> world \<Rightarrow> py_error + world" where
  "shutil_move env src dst w =
     (case move_error env src dst of
        Some m \<Rightarrow> Inl (OSError m)
      | None \<Rightarrow>
          Inr (w\<lparr>files := finsert dst (files w |-| {|src|}),
                 trace := trace w @ [Move src dst]\<rparr>))"

text \<open>\<^verbatim>\<open>s.remove(x)\<close> of a Python set raises \<^verbatim>\<open>KeyError\<close> when \<open>x\<close> is not in it.\<close>

definition set_remove :: "string set \<Rightarrow> string \<Rightarrow> py_error + string set" where
  "set_remove s x = (if x \<in> s then Inr (s - {x}) else Inl (KeyError x))"

section \<open>ImageUploader\<close>

record image_uploader =
  watch_folder :: string
  uploaded_folder :: string
  upload_url :: string
  processing_files :: "string set"

record event =
  is_directory :: bool
  src_path :: string

text \<open>The test of \<^verbatim>\<open>on_created\<close> on the suffix (line 37).\<close>

definition image_suffixes :: "string list" where
  "image_suffixes = [''.jpg'', ''.jpeg'', ''.png'']"

definition file_name_filter :: "string \<Rightarrow> bool" where
  "file_name_filter p = (str_lower (path_suffix p) \<in> set image_suffixes)"

text \<open>
  The loop of lines 78 to 80: the first counter, from the given one on, whose candidate
  name does not exist.
\<close>

definition candidate :: "string \<Rightarrow> string \<Rightarrow> nat \<Rightarrow> string" where
  "candidate base ext counter = base @ ''_'' @ str_nat counter @ ext"

function find_counter :: "world \<Rightarrow> string \<Rightarrow> string \<Rightarrow> nat \<Rightarrow> nat" where
  "find_counter w base ext counter =
     (if os_path_exists w (candidate base ext counter)
      then find_counter w base ext (counter + 1)
      else counter)"
  by pat_completeness auto

text \<open>
  The loop ends because the file system is finite and the candidate names of different
  counters differ: the decimal digits of a number determine it.
\<close>

lemma digit_char_inj:
  assumes "m < 10" "n < 10" "digit_char m = digit_char n"
  shows "m = n"
proof -
  have "distinct ''0123456789''" by simp
  from nth_eq_iff_index_eq [OF this, of m n] assms show ?thesis
    by (simp add: digit_char_def)
qed

lemma str_nat_not_Nil: "str_nat n \<noteq> []"
  by (subst str_nat.simps) simp

lemma str_nat_inj: "str_nat m = str_nat n \<Longrightarrow> m = n"
proof (induction m arbitrary: n rule: str_nat.induct)
  case (1 m)
  show ?case
  proof (cases "m < 10")
    case True
    then have sm: "str_nat m = [digit_char m]"
      by (subst str_nat.simps) simp
    show ?thesis
    proof (cases "n < 10")
      case True
      then have "str_nat n = [digit_char n]"
        by (subst str_nat.simps) simp
      with sm "1.prems" have "digit_char m = digit_char n" by simp
      with \<open>m < 10\<close> True show ?thesis by (rule digit_char_inj)
    next
      case False
      then have "str_nat n = str_nat (n div 10) @ [digit_char (n mod 10)]"
        by (subst str_nat.simps) simp
      with sm "1.prems" have "str_nat (n div 10) = []" by simp
      then show ?thesis by (simp add: str_nat_not_Nil)
    qed
  next
    case False
    then have sm: "str_nat m = str_nat (m div 10) @ [digit_char (m mod 10)]"
      by (subst str_nat.simps) simp
    show ?thesis
    proof (cases "n < 10")
      case True
      then have "str_nat n = [digit_char n]"
        by (subst str_nat.simps) simp
      with sm "1.prems" have "str_nat (m div 10) = []" by simp
      then show ?thesis by (simp add: str_nat_not_Nil)
    next
      case nge: False
      then have "str_nat n = str_nat (n div 10) @ [digit_char (n mod 10)]"
        by (subst str_nat.simps) simp
      with sm "1.prems" have eq: "str_nat (m div 10) = str_nat (n div 10)"
        and d: "digit_char (m mod 10) = digit_char (n mod 10)" by simp_all
      from "1.IH" [OF False eq] have q: "m div 10 = n div 10" .
      have r: "m mod 10 = n mod 10"
        by (rule digit_char_inj [OF _ _ d]) simp_all
      from q r show ?thesis
        by (metis div_mult_mod_eq)
    qed
  qed
qed

lemma candidate_inj: "candidate base ext i = candidate base ext j \<Longrightarrow> i = j"
  by (simp add: candidate_def str_nat_inj)

lemma finite_taken: "finite {j. candidate base ext j |\<in>| files w}"
proof -
  have "inj (candidate base ext)"
    by (rule injI) (rule candidate_inj)
  then have "finite (candidate base ext -` fset (files w))"
    by (intro finite_vimageI) simp_all
  then show ?thesis by (simp add: vimage_def)
qed

termination find_counter
proof (relation "measure (\<lambda>(w, base, ext, counter).
    card {j. counter \<le> j \<and> candidate base ext j |\<in>| files w})")
  show "wf (measure (\<lambda>(w, base, ext, counter).
    card {j. counter \<le> j \<and> candidate base ext j |\<in>| files w}))"
    by simp
next
  fix w :: world and base ext :: string and counter :: nat
  assume ex: "os_path_exists w (candidate base ext counter)"
  let ?A = "{j. counter \<le> j \<and> candidate base ext j |\<in>| files w}"
  let ?B = "{j. counter + 1 \<le> j \<and> candidate base ext j |\<in>| files w}"
  have fin: "finite ?A"
    by (rule finite_subset [OF _ finite_taken [of base ext w]]) auto
  have "counter \<in> ?A" "counter \<notin> ?B" "?B \<subseteq> ?A"
    using ex by (auto simp: os_path_exists_def)
  then have "?B \<subset> ?A" by blast
  with fin have "card ?B < card ?A" by (rule psubset_card_mono)
  then show "((w, base, ext, counter + 1), (w, base, ext, counter))
    \<in> measure (\<lambda>(w, base, ext, counter).
        card {j. counter \<le> j \<and> candidate base ext j |\<in>| files w})"
    by simp
qed

declare find_counter.simps [simp del]

text \<open>Lines 72 to 81: the destination of the move.\<close>

definition archive_destination :: "world \<Rightarrow> string \<Rightarrow> string \<Rightarrow> string" where
  "archive_destination w folder file_path =
     (let file_name = os_path_basename file_path;
          destination = os_path_join folder file_name
      in if os_path_exists w destination
         then (case os_path_splitext destination of
                 (base, ext) \<Rightarrow> candidate base ext (find_counter w base ext 1))
         else destination)"

definition curl_command :: "image_uploader \<Rightarrow> string \<Rightarrow> string list" where
  "curl_command self file_path =
     [''curl'', ''-X'', ''POST'', ''-F'', ''imageFile=@'' @ file_path, upload_url self]"

text \<open>
  The body of the \<^verbatim>\<open>try\<close> of \<^verbatim>\<open>upload_file\<close> (lines 57 to 88): the world it leaves
  and the exception it raised, if any. Here, and in \<open>upload_handled\<close>, \<open>upload_file\<close> and
  \<open>on_created\<close>, every \<^verbatim>\<open>print\<close> succeeds, as in the claims that say what is logged.
\<close>

definition upload_try :: "environment \<Rightarrow> image_uploader \<Rightarrow> world \<Rightarrow> string \<Rightarrow> py_error option \<times> world" where
  "upload_try env self w file_path =
     (if \<not> os_path_exists w file_path
      then (None, py_print (''File no longer exists: '' @ file_path) w)
      else
        let w1 = w\<lparr>trace := trace w @ [Run (curl_command self file_path)]\<rparr> in
        case subprocess_run env (curl_command self file_path) of
          Inl e \<Rightarrow> (Some e, w1)
        | Inr result \<Rightarrow>
            if returncode result = 0
            then
              let file_name = os_path_basename file_path;
                  destination = archive_destination w1 (uploaded_folder self) file_path
              in (case shutil_move env file_path destination w1 of
                    Inl e \<Rightarrow> (Some e, w1)
                  | Inr w2 \<Rightarrow>
                      (None, py_print (''Successfully uploaded and moved: '' @ file_name) w2))
            else
              (None,
               py_print (''Error: '' @ stderr result)
                 (py_print (''Failed to upload: '' @ file_path) w1)))"

text \<open>
  The \<^verbatim>\<open>try\<close> with its handler of \<^verbatim>\<open>Exception\<close> (lines 90 and 91): the world when
  the \<^verbatim>\<open>finally\<close> is reached.
\<close>

definition upload_handled :: "environment \<Rightarrow> image_uploader \<Rightarrow> world \<Rightarrow> string \<Rightarrow> world" where
  "upload_handled env self w file_path =
     (case upload_try env self w file_path of
        (None, w1) \<Rightarrow> w1
      | (Some e, w1) \<Rightarrow>
          py_print (''Error processing '' @ file_path @ '': '' @ str_error e) w1)"

text \<open>
  \<^verbatim>\<open>upload_file\<close> (lines 44 to 93): the \<^verbatim>\<open>finally\<close> runs after the handled
  \<^verbatim>\<open>try\<close>, and its \<^verbatim>\<open>remove\<close> can raise in its turn.
\<close>

definition upload_file :: "environment \<Rightarrow> image_uploader \<Rightarrow> world \<Rightarrow> string \<Rightarrow> py_error + image_uploader \<times> world" where
  "upload_file env self w file_path =
     (let w1 = upload_handled env self w file_path
      in case set_remove (processing_files self) file_path of
           Inl e \<Rightarrow> Inl e
         | Inr s \<Rightarrow> Inr (self\<lparr>processing_files := s\<rparr>, w1))"

text \<open>\<^verbatim>\<open>on_created\<close> (lines 26 to 42).\<close>

definition on_created :: "environment \<Rightarrow> image_uploader \<Rightarrow> world \<Rightarrow> event \<Rightarrow> py_error + image_uploader \<times> world" where
  "on_created env self w ev =
     (if \<not> is_directory ev then
        let file_path = src_path ev in
        if file_name_filter file_path then
          if path_str file_path \<notin> processing_files self then
            let self1 = self\<lparr>processing_files :=
                              insert (path_str file_path) (processing_files self)\<rparr>;
                w1 = time_sleep env 30 w
            in upload_file env self1 w1 (path_str file_path)
          else Inr (self, w)
        else Inr (self, w)
      else Inr (self, w))"

subsection \<open>When \<^verbatim>\<open>print\<close> raises\<close>

text \<open>
  \<^verbatim>\<open>print\<close> can raise as well (the output is closed, a character cannot be encoded).
  A console says, for each line, which exception \<^verbatim>\<open>print\<close> raises for it, if any; a line
  that raises is not written. The functions above are the handler with a \<^verbatim>\<open>print\<close> that
  always succeeds; the functions below are the same lines of the source with a \<^verbatim>\<open>print\<close>
  that may raise, in the \<^verbatim>\<open>try\<close> (where the handler of line 90 catches it) and in that
  handler itself (line 91, from where the exception leaves \<^verbatim>\<open>upload_file\<close> after the
  \<^verbatim>\<open>finally\<close>). They return the exception that leaves the call, if any, together with
  the handler and the world that the call leaves behind.
\<close>

type_synonym console = "string \<Rightarrow> py_error option"

definition print_raising :: "console \<Rightarrow> string \<Rightarrow> world \<Rightarrow> py_error option \<times> world" where
  "print_raising con line w =
     (case con line of None \<Rightarrow> (None, py_print line w) | Some e \<Rightarrow> (Some e, w))"

definition upload_try_raising :: "console \<Rightarrow> environment \<Rightarrow> image_uploader \<Rightarrow> world \<Rightarrow> string \<Rightarrow> py_error option \<times> world" where
  "upload_try_raising con env self w file_path =
     (if \<not> os_path_exists w file_path
      then print_raising con (''File no longer exists: '' @ file_path) w
      else
        let w1 = w\<lparr>trace := trace w @ [Run (curl_command self file_path)]\<rparr> in
        case subprocess_run env (curl_command self file_path) of
          Inl e \<Rightarrow> (Some e, w1)
        | Inr result \<Rightarrow>
            if returncode result = 0
            then
              let file_name = os_path_basename file_path;
                  destination = archive_destination w1 (uploaded_folder self) file_path
              in (case shutil_move env file_path destination w1 of
                    Inl e \<Rightarrow> (Some e, w1)
                  | Inr w2 \<Rightarrow>
                      print_raising con (''Successfully uploaded and moved: '' @ file_name) w2)
            else
              (case print_raising con (''Failed to upload: '' @ file_path) w1 of
                 (Some e, w2) \<Rightarrow> (Some e, w2)
               | (None, w2) \<Rightarrow> print_raising con (''Error: '' @ stderr result) w2))"

definition upload_handled_raising :: "console \<Rightarrow> environment \<Rightarrow> image_uploader \<Rightarrow> world \<Rightarrow> string \<Rightarrow> py_error option \<times> world" where
  "upload_handled_raising con env self w file_path =
     (case upload_try_raising con env self w file_path of
        (None, w1) \<Rightarrow> (None, w1)
      | (Some e, w1) \<Rightarrow>
          print_raising con (''Error processing '' @ file_path @ '': '' @ str_error e) w1)"

definition upload_file_raising :: "console \<Rightarrow> environment \<Rightarrow> image_uploader \<Rightarrow> world \<Rightarrow> string \<Rightarrow> py_error option \<times> image_uploader \<times> world" where
  "upload_file_raising con env self w file_path =
     (case upload_handled_raising con env self w file_path of
        (raised, w1) \<Rightarrow>
          (case set_remove (processing_files self) file_path of
             Inl e \<Rightarrow> (Some e, self, w1)
           | Inr s \<Rightarrow> (raised, self\<lparr>processing_files := s\<rparr>, w1)))"

definition on_created_raising :: "console \<Rightarrow> environment \<Rightarrow> image_uploader \<Rightarrow> world \<Rightarrow> event \<Rightarrow> py_error option \<times> image_uploader \<times> world" where
  "on_created_raising con env self w ev =
     (if \<not> is_directory ev then
        let file_path = src_path ev in
        if file_name_filter file_path then
          if path_str file_path \<notin> processing_files self then
            let self1 = self\<lparr>processing_files :=
                              insert (path_str file_path) (processing_files self)\<rparr>;
                w1 = time_sleep env 30 w
            in upload_file_raising con env self1 w1 (path_str file_path)
          else (None, self, w)
        else (None, self, w)
      else (None, self, w))"

section \<open>The configuration of \<^verbatim>\<open>main\<close> and sample environments\<close>

text \<open>The handler that \<^verbatim>\<open>main\<close> builds (lines 117 to 126).\<close>

definition main_uploader :: image_uploader where
  "main_uploader =
     \<lparr>watch_folder = ''D:/cam'',
      uploaded_folder = ''D:/cam/uploaded'',
      upload_url = ''https://projects.benax.rw/f/o/r/e/a/c/h/p/r/o/j/e/c/t/s/4e8d42b606f70fa9d39741a93ed0356c/iot_testing_202501/upload.php'',
      processing_files = {}\<rparr>"

text \<open>The same handler while the path \<open>p\<close> is in its in-flight set.\<close>

definition processing :: "string \<Rightarrow> image_uploader" where
  "processing p = main_uploader\<lparr>processing_files := {p}\<rparr>"

text \<open>
  An environment in which curl ends with the given exit status and error text, the move
  is never refused and nobody else touches the files.
\<close>

definition curl_exits :: "int \<Rightarrow> string \<Rightarrow> environment" where
  "curl_exits code err =
     \<lparr>subprocess_run = (\<lambda>cmd. Inr \<lparr>returncode = code, stdout = [], stderr = err\<rparr>),
      move_error = (\<lambda>src dst. None),
      after_sleep = (\<lambda>fs. fs)\<rparr>"

text \<open>The event of a file created at a path, and a world with the given files and no output yet.\<close>

definition created :: "string \<Rightarrow> event" where
  "created p = \<lparr>is_directory = False, src_path = p\<rparr>"

definition world_of :: "string list \<Rightarrow> world" where
  "world_of ps = \<lparr>files = fset_of_list ps, trace = []\<rparr>"

text \<open>A console on which every line is written, and one that is closed.\<close>

definition quiet :: console where
  "quiet = (\<lambda>line. None)"

definition broken_pipe :: console where
  "broken_pipe = (\<lambda>line. Some (OSError ''[Errno 32] Broken pipe''))"

text \<open>An environment in which curl cannot be started: \<^verbatim>\<open>subprocess.run\<close> raises.\<close>

definition curl_missing :: environment where
  "curl_missing =
     \<lparr>subprocess_run = (\<lambda>cmd. Inl (OSError ''[Errno 2] No such file or directory'')),
      move_error = (\<lambda>src dst. None),
      after_sleep = (\<lambda>fs. fs)\<rparr>"

text \<open>An environment in which the given file is deleted while the handler sleeps.\<close>

definition removed_while_asleep :: "string \<Rightarrow> environment" where
  "removed_while_asleep p =
     \<lparr>subprocess_run = (\<lambda>cmd. Inr \<lparr>returncode = 0, stdout = [], stderr = []\<rparr>),
      move_error = (\<lambda>src dst. None),
      after_sleep = (\<lambda>fs. fs |-| {|p|})\<rparr>"

subsection \<open>The exit status of curl\<close>

text \<open>
  curl is a program of its own, started by \<^verbatim>\<open>subprocess.run\<close>. By its manual it ends
  with exit status 0 whenever the transfer was made, whatever HTTP status the server
  answered with, unless \<^verbatim>\<open>-f\<close> or \<^verbatim>\<open>--fail\<close> is among its arguments (a status of 400
  or more then gives exit status 22); when the transfer cannot be made it ends with a
  non-zero exit status and a message on its error output.
\<close>

datatype transfer =
    Answered nat string
  | NotMade int string

definition curl :: "string list \<Rightarrow> transfer \<Rightarrow> completed_process" where
  "curl args t =
     (case t of
        Answered status body \<Rightarrow>
          if (''-f'' \<in> set args \<or> ''--fail'' \<in> set args) \<and> 400 \<le> status
          then \<lparr>returncode = 22, stdout = [],
                 stderr = ''curl: (22) The requested URL returned error''\<rparr>
          else \<lparr>returncode = 0, stdout = body, stderr = []\<rparr>
      | NotMade code message \<Rightarrow> \<lparr>returncode = code, stdout = [], stderr = message\<rparr>)"


section \<open>Facts about the handler\<close>

subsection \<open>The \<^verbatim>\<open>finally\<close> of \<^verbatim>\<open>upload_file\<close>\<close>

lemma upload_file_member:
  "file_path \<in> processing_files self \<Longrightarrow>
     upload_file env self w file_path =
       Inr (self\<lparr>processing_files := processing_files self - {file_path}\<rparr>,
            upload_handled env self w file_path)"
  by (simp add: upload_file_def set_remove_def)

lemma upload_file_not_member:
  "file_path \<notin> processing_files self \<Longrightarrow>
     upload_file env self w file_path = Inl (KeyError file_path)"
  by (simp add: upload_file_def set_remove_def)

subsection \<open>The \<^verbatim>\<open>try\<close> of \<^verbatim>\<open>upload_file\<close> and \<^verbatim>\<open>on_created\<close>\<close>

lemma upload_try_vanished:
  "\<not> os_path_exists w file_path \<Longrightarrow>
     upload_try env self w file_path =
       (None, w\<lparr>trace := trace w @ [Print (''File no longer exists: '' @ file_path)]\<rparr>)"
  by (simp add: upload_try_def py_print_def)

lemma upload_try_failed:
  "os_path_exists w file_path \<Longrightarrow>
   subprocess_run env (curl_command self file_path) = Inr result \<Longrightarrow>
   returncode result \<noteq> 0 \<Longrightarrow>
     upload_try env self w file_path =
       (None, w\<lparr>trace := trace w @
          [Run (curl_command self file_path),
           Print (''Failed to upload: '' @ file_path),
           Print (''Error: '' @ stderr result)]\<rparr>)"
  by (simp add: upload_try_def py_print_def Let_def)

lemma on_created_ignored:
  "is_directory ev \<or> \<not> file_name_filter (src_path ev) \<or>
     path_str (src_path ev) \<in> processing_files self \<Longrightarrow>
   on_created env self w ev = Inr (self, w)"
  by (auto simp: on_created_def Let_def)

lemma on_created_accepted:
  assumes "\<not> is_directory ev" "file_name_filter (src_path ev)"
    "path_str (src_path ev) \<notin> processing_files self"
  shows "on_created env self w ev =
     Inr (self,
          upload_handled env
            (self\<lparr>processing_files := insert (path_str (src_path ev)) (processing_files self)\<rparr>)
            (time_sleep env 30 w) (path_str (src_path ev)))"
  using assms by (simp add: on_created_def Let_def upload_file_member)

subsection \<open>The handler when \<^verbatim>\<open>print\<close> may raise\<close>

text \<open>With a console that writes every line, the two versions of the handler agree.\<close>

lemma print_raising_quiet: "print_raising quiet line w = (None, py_print line w)"
  by (simp add: print_raising_def quiet_def)

lemma upload_try_raising_quiet:
  "upload_try_raising quiet env self w file_path = upload_try env self w file_path"
  by (simp add: upload_try_raising_def upload_try_def print_raising_quiet Let_def
      split: sum.splits)

lemma upload_handled_raising_quiet:
  "upload_handled_raising quiet env self w file_path = (None, upload_handled env self w file_path)"
  by (simp add: upload_handled_raising_def upload_handled_def upload_try_raising_quiet
      print_raising_quiet split: prod.splits option.splits)

lemma upload_file_raising_quiet:
  "upload_file_raising quiet env self w file_path =
     (case upload_file env self w file_path of
        Inl e \<Rightarrow> (Some e, self, upload_handled env self w file_path)
      | Inr (self', w') \<Rightarrow> (None, self', w'))"
  by (simp add: upload_file_raising_def upload_file_def upload_handled_raising_quiet
      split: sum.splits)

lemma on_created_raising_quiet:
  "on_created env self w ev = Inr (self', w') \<Longrightarrow>
     on_created_raising quiet env self w ev = (None, self', w')"
  by (auto simp: on_created_raising_def on_created_def upload_file_raising_quiet Let_def
      split: if_splits)

lemma upload_file_raising_member:
  "file_path \<in> processing_files self \<Longrightarrow>
     upload_file_raising con env self w file_path =
       (fst (upload_handled_raising con env self w file_path),
        self\<lparr>processing_files := processing_files self - {file_path}\<rparr>,
        snd (upload_handled_raising con env self w file_path))"
  by (simp add: upload_file_raising_def set_remove_def split: prod.splits)

lemma on_created_raising_ignored:
  "is_directory ev \<or> \<not> file_name_filter (src_path ev) \<or>
     path_str (src_path ev) \<in> processing_files self \<Longrightarrow>
   on_created_raising con env self w ev = (None, self, w)"
  by (auto simp: on_created_raising_def Let_def)

lemma on_created_raising_accepted:
  assumes "\<not> is_directory ev" "file_name_filter (src_path ev)"
    "path_str (src_path ev) \<notin> processing_files self"
  shows "on_created_raising con env self w ev =
     (fst (upload_handled_raising con env
             (self\<lparr>processing_files := insert (path_str (src_path ev)) (processing_files self)\<rparr>)
             (time_sleep env 30 w) (path_str (src_path ev))),
      self,
      snd (upload_handled_raising con env
             (self\<lparr>processing_files := insert (path_str (src_path ev)) (processing_files self)\<rparr>)
             (time_sleep env 30 w) (path_str (src_path ev))))"
  using assms by (simp add: on_created_raising_def Let_def upload_file_raising_member)

subsection \<open>Searching and splitting strings\<close>

lemma str_rfind_lower: "- 1 \<le> str_rfind s c"
  by (induction s) (auto simp: Let_def)

lemma str_rfind_upper: "str_rfind s c < int (length s)"
  by (induction s) (auto simp: Let_def)

lemma str_rfind_absent: "c \<notin> set s \<Longrightarrow> str_rfind s c = - 1"
  by (induction s) (auto simp: Let_def)

lemma str_rfind_last: "c \<notin> set ys \<Longrightarrow> str_rfind (xs @ c # ys) c = int (length xs)"
  by (induction xs) (auto simp: Let_def str_rfind_absent)

lemma str_rfind_found:
  "0 \<le> str_rfind s c \<Longrightarrow>
     \<exists>xs ys. s = xs @ c # ys \<and> c \<notin> set ys \<and> str_rfind s c = int (length xs)"
proof (induction s)
  case Nil
  then show ?case by simp
next
  case (Cons x s)
  show ?case
  proof (cases "0 \<le> str_rfind s c")
    case True
    from Cons.IH [OF True] obtain xs ys
      where "s = xs @ c # ys" "c \<notin> set ys" "str_rfind s c = int (length xs)"
      by blast
    then have "x # s = (x # xs) @ c # ys \<and> c \<notin> set ys \<and>
        str_rfind (x # s) c = int (length (x # xs))"
      using True by (simp add: Let_def)
    then show ?thesis by blast
  next
    case False
    with Cons.prems have xc: "x = c" and r: "str_rfind (x # s) c = 0"
      by (auto simp: Let_def split: if_splits)
    from False str_rfind_lower [of s c] have "str_rfind s c = - 1" by simp
    have "c \<notin> set s"
    proof
      assume "c \<in> set s"
      then obtain ys zs where "s = ys @ c # zs" "c \<notin> set zs"
        by (meson split_list_last)
      then have "str_rfind s c = int (length ys)" by (simp add: str_rfind_last)
      with False show False by simp
    qed
    with xc r have "x # s = [] @ c # s \<and> c \<notin> set s \<and> str_rfind (x # s) c = int (length ([]::string))"
      by simp
    then show ?thesis by blast
  qed
qed

lemma str_rfind_append:
  "str_rfind (xs @ ys) c =
     (if c \<in> set ys then int (length xs) + str_rfind ys c else str_rfind xs c)"
proof (cases "c \<in> set ys")
  case True
  then obtain us vs where ys: "ys = us @ c # vs" "c \<notin> set vs"
    by (meson split_list_last)
  then have "str_rfind ((xs @ us) @ c # vs) c = int (length (xs @ us))"
    by (intro str_rfind_last)
  moreover from ys have "str_rfind ys c = int (length us)"
    by (simp add: str_rfind_last)
  ultimately show ?thesis using True ys by simp
next
  case False
  then show ?thesis
    by (induction xs) (auto simp: Let_def str_rfind_absent)
qed

lemma basename_no_sep: "CHR ''/'' \<notin> set (os_path_basename p)"
proof (cases "0 \<le> str_rfind p (CHR ''/'')")
  case True
  from str_rfind_found [OF True] obtain xs ys
    where "p = xs @ CHR ''/'' # ys" "CHR ''/'' \<notin> set ys"
      "str_rfind p (CHR ''/'') = int (length xs)" by blast
  then show ?thesis
    by (simp add: os_path_basename_def Let_def nat_add_distrib)
next
  case False
  with str_rfind_lower [of p "CHR ''/''"] have m: "str_rfind p (CHR ''/'') = - 1" by simp
  have "CHR ''/'' \<notin> set p"
  proof
    assume "CHR ''/'' \<in> set p"
    then obtain ys zs where "p = ys @ CHR ''/'' # zs" "CHR ''/'' \<notin> set zs"
      by (meson split_list_last)
    then have "str_rfind p (CHR ''/'') = int (length ys)" by (simp add: str_rfind_last)
    with m show False by simp
  qed
  with m show ?thesis by (simp add: os_path_basename_def)
qed

lemma lower_char_dot: "lower_char c = CHR ''.'' \<longleftrightarrow> c = CHR ''.''"
  by (simp add: lower_char_def)

lemma image_suffix_shape:
  assumes "str_lower ext \<in> set image_suffixes"
  shows "\<exists>rest. ext = CHR ''.'' # rest \<and> CHR ''.'' \<notin> set rest \<and> rest \<noteq> []"
proof -
  from assms obtain e where e: "str_lower ext = CHR ''.'' # e" "CHR ''.'' \<notin> set e" "e \<noteq> []"
    by (auto simp: image_suffixes_def)
  then obtain c rest where ext: "ext = c # rest" "lower_char c = CHR ''.''" "map lower_char rest = e"
    by (auto simp: str_lower_def map_eq_Cons_conv)
  have "CHR ''.'' \<notin> set rest"
  proof
    assume "CHR ''.'' \<in> set rest"
    then have "lower_char (CHR ''.'') \<in> set (map lower_char rest)" by simp
    moreover have "lower_char (CHR ''.'') = CHR ''.''" by (simp add: lower_char_def)
    ultimately show False using ext(3) e(2) by simp
  qed
  moreover from ext(3) e(3) have "rest \<noteq> []" by auto
  ultimately show ?thesis using ext by (simp add: lower_char_dot)
qed

lemma path_suffix_stem:
  assumes "path_name p = stem @ CHR ''.'' # rest" "CHR ''.'' \<notin> set rest"
  shows "path_suffix p = (if stem \<noteq> [] \<and> rest \<noteq> [] then CHR ''.'' # rest else [])"
  using assms by (auto simp: path_suffix_def Let_def str_rfind_last)

lemma path_suffix_split:
  assumes "path_suffix p \<noteq> []"
  shows "\<exists>stem. stem \<noteq> [] \<and> path_name p = stem @ path_suffix p"
proof -
  let ?name = "path_name p"
  let ?i = "str_rfind ?name (CHR ''.'')"
  from assms have i: "0 < ?i" "?i < int (length ?name) - 1" and s: "path_suffix p = drop (nat ?i) ?name"
    by (auto simp: path_suffix_def Let_def split: if_splits)
  have "?name = take (nat ?i) ?name @ path_suffix p" by (simp add: s)
  moreover from i have "take (nat ?i) ?name \<noteq> []" by auto
  ultimately show ?thesis by blast
qed

lemma str_split_not_Nil: "str_split c s \<noteq> []"
  by (induction s) (auto split: list.splits)

lemma str_split_absent: "c \<notin> set s \<Longrightarrow> str_split c s = [s]"
  by (induction s) auto

lemma str_split_append: "str_split c (xs @ c # ys) = str_split c xs @ str_split c ys"
proof (induction xs)
  case Nil
  show ?case by simp
next
  case (Cons x xs)
  obtain y zs where "str_split c xs = y # zs"
    using str_split_not_Nil [of c xs] by (cases "str_split c xs") auto
  with Cons show ?case by simp
qed

lemma path_name_last:
  "path_name p = (if path_parts p = [] then [] else last (path_parts p))"
  by (simp add: path_name_def split: list.splits)

lemma path_name_last_component:
  assumes "CHR ''/'' \<notin> set name" "name \<noteq> []" "name \<noteq> ''.''"
  shows "path_name (dir @ ''/'' @ name) = name"
proof -
  have "path_parts (dir @ ''/'' @ name) =
      filter (\<lambda>x. x \<noteq> [] \<and> x \<noteq> ''.'') (str_split (CHR ''/'') dir) @ [name]"
    using assms by (simp add: path_parts_def str_split_append str_split_absent)
  then show ?thesis
    by (simp add: path_name_last)
qed

subsection \<open>The name of the archived file\<close>

lemma find_counter_free:
  "\<not> os_path_exists w (candidate base ext (find_counter w base ext n))"
  by (induction w base ext n rule: find_counter.induct)
     (subst find_counter.simps, simp)

lemma find_counter_ge: "n \<le> find_counter w base ext n"
proof (induction w base ext n rule: find_counter.induct)
  case (1 w base ext counter)
  show ?case
  proof (cases "os_path_exists w (candidate base ext counter)")
    case True
    with "1.IH" show ?thesis by (subst find_counter.simps) simp
  next
    case False
    then show ?thesis by (subst find_counter.simps) simp
  qed
qed

lemma find_counter_taken:
  "n \<le> j \<Longrightarrow> j < find_counter w base ext n \<Longrightarrow> os_path_exists w (candidate base ext j)"
proof (induction w base ext n rule: find_counter.induct)
  case (1 w base ext counter)
  show ?case
  proof (cases "os_path_exists w (candidate base ext counter)")
    case True
    then have eq: "find_counter w base ext counter = find_counter w base ext (counter + 1)"
      by (subst find_counter.simps) simp
    show ?thesis
    proof (cases "j = counter")
      case True
      with \<open>os_path_exists w (candidate base ext counter)\<close> show ?thesis by simp
    next
      case False
      with "1.prems" have "counter + 1 \<le> j" by simp
      with "1.IH" [OF True] "1.prems"(2) eq show ?thesis by simp
    qed
  next
    case False
    then have "find_counter w base ext counter = counter"
      by (subst find_counter.simps) simp
    with "1.prems" show ?thesis by simp
  qed
qed

lemma os_path_join_prefix:
  "take 1 b \<noteq> ''/'' \<Longrightarrow> os_path_join a b = join_prefix a @ b"
  by (simp add: os_path_join_def join_prefix_def)

lemma join_prefix_sep: "str_rfind (join_prefix a) (CHR ''/'') + 1 = int (length (join_prefix a))"
proof (cases "a = []")
  case True
  then show ?thesis by (simp add: join_prefix_def)
next
  case False
  then have "\<exists>xs. join_prefix a = xs @ [CHR ''/'']"
    by (cases a rule: rev_cases) (auto simp: join_prefix_def)
  then obtain xs where "join_prefix a = xs @ [CHR ''/'']" ..
  then show ?thesis
    using str_rfind_last [of "CHR ''/''" "[]" xs] by simp
qed

lemma splitext_join_prefix:
  assumes "CHR ''/'' \<notin> set name"
  shows "os_path_splitext (join_prefix a @ name) =
     (join_prefix a @ fst (os_path_splitext name), snd (os_path_splitext name))"
proof -
  let ?pre = "join_prefix a"
  have sep: "str_rfind (?pre @ name) (CHR ''/'') = int (length ?pre) - 1"
    using assms join_prefix_sep [of a] by (simp add: str_rfind_append)
  have sepn: "str_rfind name (CHR ''/'') = - 1"
    using assms by (simp add: str_rfind_absent)
  show ?thesis
  proof (cases "CHR ''.'' \<in> set name")
    case True
    then have d: "0 \<le> str_rfind name (CHR ''.'')"
      using str_rfind_absent str_rfind_last
      by (metis of_nat_0_le_iff split_list_last)
    have dot: "str_rfind (?pre @ name) (CHR ''.'') = int (length ?pre) + str_rfind name (CHR ''.'')"
      using True by (simp add: str_rfind_append)
    have n: "nat (int (length ?pre) + str_rfind name (CHR ''.'')) =
        length ?pre + nat (str_rfind name (CHR ''.''))"
      using d by (simp add: nat_add_distrib)
    show ?thesis
      using d by (simp add: os_path_splitext_def Let_def sep sepn dot n)
  next
    case False
    then have dn: "str_rfind name (CHR ''.'') = - 1"
      by (simp add: str_rfind_absent)
    have "str_rfind (?pre @ name) (CHR ''.'') = str_rfind ?pre (CHR ''.'')"
      using False by (simp add: str_rfind_append)
    moreover have "str_rfind ?pre (CHR ''.'') < int (length ?pre)"
      by (rule str_rfind_upper)
    ultimately have "\<not> str_rfind (?pre @ name) (CHR ''.'') > str_rfind (?pre @ name) (CHR ''/'')"
      using sep by simp
    then show ?thesis
      by (simp add: os_path_splitext_def Let_def sepn dn)
  qed
qed

lemma splitext_fst_no_sep:
  "CHR ''/'' \<notin> set name \<Longrightarrow> CHR ''/'' \<notin> set (fst (os_path_splitext name))"
  by (auto simp: os_path_splitext_def Let_def dest: in_set_takeD)

lemma candidate_relative:
  "CHR ''/'' \<notin> set base \<Longrightarrow> take 1 (candidate base ext k) \<noteq> ''/''"
  by (cases base) (auto simp: candidate_def)

lemma candidate_join:
  assumes "CHR ''/'' \<notin> set base"
  shows "os_path_join a (candidate base ext k) = candidate (join_prefix a @ base) ext k"
proof -
  from assms have "take 1 (candidate base ext k) \<noteq> ''/''"
    by (rule candidate_relative)
  then have "os_path_join a (candidate base ext k) = join_prefix a @ candidate base ext k"
    by (rule os_path_join_prefix)
  then show ?thesis by (simp add: candidate_def)
qed

lemma relative_name: "CHR ''/'' \<notin> set name \<Longrightarrow> take 1 name \<noteq> ''/''"
  by (cases name) auto

lemma splitext_stem:
  assumes "CHR ''/'' \<notin> set stem" "list_ex (\<lambda>c. c \<noteq> CHR ''.'') stem"
    "CHR ''.'' \<notin> set e" "CHR ''/'' \<notin> set e"
  shows "os_path_splitext (stem @ CHR ''.'' # e) = (stem, CHR ''.'' # e)"
proof -
  have "str_rfind (stem @ CHR ''.'' # e) (CHR ''/'') = - 1"
    using assms by (simp add: str_rfind_absent)
  moreover have "str_rfind (stem @ CHR ''.'' # e) (CHR ''.'') = int (length stem)"
    using assms by (simp add: str_rfind_last)
  ultimately show ?thesis
    using assms by (simp add: os_path_splitext_def Let_def)
qed

lemma archive_destination_unfold:
  assumes "name = os_path_basename file_path" "os_path_splitext name = (base, ext)"
  shows "archive_destination w folder file_path =
     (if os_path_exists w (os_path_join folder name)
      then os_path_join folder
             (candidate base ext (find_counter w (join_prefix folder @ base) ext 1))
      else os_path_join folder name)"
    and "os_path_join folder (candidate base ext k) = candidate (join_prefix folder @ base) ext k"
proof -
  have ns: "CHR ''/'' \<notin> set name"
    using assms(1) by (simp add: basename_no_sep)
  then have j: "os_path_join folder name = join_prefix folder @ name"
    by (intro os_path_join_prefix relative_name)
  have sp: "os_path_splitext (join_prefix folder @ name) = (join_prefix folder @ base, ext)"
    using splitext_join_prefix [OF ns, of folder] assms(2) by simp
  have bs: "CHR ''/'' \<notin> set base"
    using splitext_fst_no_sep [OF ns] assms(2) by simp
  show c: "os_path_join folder (candidate base ext k) = candidate (join_prefix folder @ base) ext k"
    for k using bs by (rule candidate_join)
  show "archive_destination w folder file_path =
     (if os_path_exists w (os_path_join folder name)
      then os_path_join folder
             (candidate base ext (find_counter w (join_prefix folder @ base) ext 1))
      else os_path_join folder name)"
    unfolding c using assms(1) j sp
    by (simp add: archive_destination_def Let_def)
qed

lemma str_nat_1: "str_nat 1 = ''1''" and str_nat_2: "str_nat 2 = ''2''"
  by (simp_all add: str_nat.simps digit_char_def)




subsection \<open>Evaluation of the path functions\<close>

lemmas path_eval =
  file_name_filter_def image_suffixes_def path_suffix_def path_name_def path_parts_def
  path_str_def path_root_def str_lower_def lower_char_def Let_def

lemma photo_accepted: "file_name_filter ''D:/cam/photo.jpg''"
  by (simp add: path_eval)

lemma photo_str: "path_str ''D:/cam/photo.jpg'' = ''D:/cam/photo.jpg''"
  by (simp add: path_eval)

section \<open>The claims\<close>

subsection \<open>C1: the in-flight entry is always released\<close>

text \<open>
  C1: whatever the environment and the console do (the upload succeeds, curl fails, the
  file has vanished, \<^verbatim>\<open>subprocess.run\<close>, the move or a \<^verbatim>\<open>print\<close> raises), and whether
  \<^verbatim>\<open>upload_file\<close> returns or an exception leaves it, \<^verbatim>\<open>upload_file\<close> called for a path
  of the in-flight set leaves the handler with that path removed from the set. So
  \<^verbatim>\<open>on_created\<close> leaves the handler as it was before the event, for every event and on
  every exit; for an accepted event it is the sleep followed by the handled upload of the
  path, which is therefore processed again by a later event for the same path.
\<close>

theorem in_flight_released:
  "(file_path \<in> processing_files self \<longrightarrow>
      (\<exists>raised w'. upload_file_raising con env self w file_path =
         (raised, self\<lparr>processing_files := processing_files self - {file_path}\<rparr>, w'))) \<and>
   (\<exists>raised w'. on_created_raising con env self w ev = (raised, self, w')) \<and>
   (\<not> is_directory ev \<and> file_name_filter (src_path ev) \<and>
    path_str (src_path ev) \<notin> processing_files self \<longrightarrow>
      on_created_raising con env self w ev =
        (case upload_handled_raising con env
                (self\<lparr>processing_files :=
                   insert (path_str (src_path ev)) (processing_files self)\<rparr>)
                (time_sleep env 30 w) (path_str (src_path ev)) of
           (raised, w') \<Rightarrow> (raised, self, w')))"
proof -
  have "\<exists>raised w'. on_created_raising con env self w ev = (raised, self, w')"
  proof (cases "is_directory ev \<or> \<not> file_name_filter (src_path ev) \<or>
      path_str (src_path ev) \<in> processing_files self")
    case True
    then show ?thesis by (simp add: on_created_raising_ignored)
  next
    case False
    then show ?thesis by (simp add: on_created_raising_accepted)
  qed
  then show ?thesis
    by (simp add: upload_file_raising_member on_created_raising_accepted split: prod.splits)
qed

theorem in_flight_released_witness:
  "''D:/cam/photo.jpg'' \<in> processing_files (processing ''D:/cam/photo.jpg'') \<and>
   upload_file_raising broken_pipe (curl_exits 7 ''curl: (7) Failed to connect'')
       (processing ''D:/cam/photo.jpg'') (world_of [''D:/cam/photo.jpg'']) ''D:/cam/photo.jpg''
     = (Some (OSError ''[Errno 32] Broken pipe''), main_uploader,
        \<lparr>files = {|''D:/cam/photo.jpg''|},
         trace = [Run (curl_command main_uploader ''D:/cam/photo.jpg'')]\<rparr>) \<and>
   \<not> is_directory (created ''D:/cam/photo.jpg'') \<and>
   file_name_filter (src_path (created ''D:/cam/photo.jpg'')) \<and>
   path_str (src_path (created ''D:/cam/photo.jpg'')) \<notin> processing_files main_uploader \<and>
   on_created_raising broken_pipe (curl_exits 7 ''curl: (7) Failed to connect'')
       main_uploader (world_of [''D:/cam/photo.jpg'']) (created ''D:/cam/photo.jpg'')
     = (Some (OSError ''[Errno 32] Broken pipe''), main_uploader,
        \<lparr>files = {|''D:/cam/photo.jpg''|},
         trace = [Sleep 30, Run (curl_command main_uploader ''D:/cam/photo.jpg'')]\<rparr>)"
proof -
  let ?p = "''D:/cam/photo.jpg''"
  let ?env = "curl_exits 7 ''curl: (7) Failed to connect''"
  have c: "curl_command (processing ?p) ?p = curl_command main_uploader ?p"
    by (simp add: curl_command_def processing_def)
  have h: "upload_handled_raising broken_pipe ?env (processing ?p) (world_of [?p]) ?p
      = (Some (OSError ''[Errno 32] Broken pipe''),
         \<lparr>files = {|?p|}, trace = [Run (curl_command main_uploader ?p)]\<rparr>)"
    by (simp add: upload_handled_raising_def upload_try_raising_def print_raising_def
        broken_pipe_def curl_exits_def os_path_exists_def world_of_def c Let_def)
  have h': "upload_handled_raising broken_pipe ?env (processing ?p)
        (time_sleep ?env 30 (world_of [?p])) ?p
      = (Some (OSError ''[Errno 32] Broken pipe''),
         \<lparr>files = {|?p|}, trace = [Sleep 30, Run (curl_command main_uploader ?p)]\<rparr>)"
    by (simp add: upload_handled_raising_def upload_try_raising_def print_raising_def
        broken_pipe_def curl_exits_def os_path_exists_def world_of_def time_sleep_def c Let_def)
  have m: "main_uploader\<lparr>processing_files := insert ?p (processing_files main_uploader)\<rparr>
      = processing ?p"
    and e: "processing ?p\<lparr>processing_files := processing_files (processing ?p) - {?p}\<rparr>
      = main_uploader"
    by (simp_all add: processing_def main_uploader_def)
  have a: "\<not> is_directory (created ?p)" "file_name_filter (src_path (created ?p))"
    "path_str (src_path (created ?p)) \<notin> processing_files main_uploader"
    "path_str (src_path (created ?p)) = ?p" "?p \<in> processing_files (processing ?p)"
    by (simp_all add: created_def photo_accepted photo_str main_uploader_def processing_def)
  from in_flight_released [of ?p "processing ?p" broken_pipe ?env "world_of [?p]" "created ?p"]
  have u: "upload_file_raising broken_pipe ?env (processing ?p) (world_of [?p]) ?p
     = (Some (OSError ''[Errno 32] Broken pipe''), main_uploader,
        \<lparr>files = {|?p|}, trace = [Run (curl_command main_uploader ?p)]\<rparr>)"
    using a(5) h by (auto simp: e upload_file_raising_member)
  from in_flight_released [of ?p main_uploader broken_pipe ?env "world_of [?p]" "created ?p"]
  have o: "on_created_raising broken_pipe ?env main_uploader (world_of [?p]) (created ?p)
     = (Some (OSError ''[Errno 32] Broken pipe''), main_uploader,
        \<lparr>files = {|?p|}, trace = [Sleep 30, Run (curl_command main_uploader ?p)]\<rparr>)"
    using a(1-3) by (simp add: a(4) m h')
  from a u o show ?thesis by simp
qed

subsection \<open>C2: the filter on the file name\<close>

text \<open>
  C2: the filter is a function of the path alone, and it accepts a path exactly when the
  suffix of the path, in lower case, is \<^verbatim>\<open>.jpg\<close>, \<^verbatim>\<open>.jpeg\<close> or \<^verbatim>\<open>.png\<close>. In terms
  of the name of the file: it accepts exactly the names that are a non-empty stem
  followed by one of the three extensions, in any mixture of upper and lower case.
\<close>

theorem filter_by_suffix:
  "file_name_filter p = (str_lower (path_suffix p) \<in> {''.jpg'', ''.jpeg'', ''.png''}) \<and>
   file_name_filter p =
     (\<exists>stem ext. path_name p = stem @ ext \<and> stem \<noteq> [] \<and>
        str_lower ext \<in> {''.jpg'', ''.jpeg'', ''.png''})"
proof
  show "file_name_filter p = (str_lower (path_suffix p) \<in> {''.jpg'', ''.jpeg'', ''.png''})"
    by (simp add: file_name_filter_def image_suffixes_def)
next
  have S: "{''.jpg'', ''.jpeg'', ''.png''} = set image_suffixes"
    by (simp add: image_suffixes_def)
  show "file_name_filter p =
     (\<exists>stem ext. path_name p = stem @ ext \<and> stem \<noteq> [] \<and>
        str_lower ext \<in> {''.jpg'', ''.jpeg'', ''.png''})"
    unfolding S
  proof
    assume f: "file_name_filter p"
    then have "path_suffix p \<noteq> []"
      by (auto simp: file_name_filter_def image_suffixes_def str_lower_def)
    from path_suffix_split [OF this] f
    show "\<exists>stem ext. path_name p = stem @ ext \<and> stem \<noteq> [] \<and> str_lower ext \<in> set image_suffixes"
      by (auto simp: file_name_filter_def)
  next
    assume "\<exists>stem ext. path_name p = stem @ ext \<and> stem \<noteq> [] \<and> str_lower ext \<in> set image_suffixes"
    then obtain stem ext where n: "path_name p = stem @ ext" "stem \<noteq> []"
      and l: "str_lower ext \<in> set image_suffixes" by blast
    from image_suffix_shape [OF l] obtain rest
      where r: "ext = CHR ''.'' # rest" "CHR ''.'' \<notin> set rest" "rest \<noteq> []" by blast
    from n r have "path_suffix p = ext"
      by (simp add: path_suffix_stem)
    with l show "file_name_filter p" by (simp add: file_name_filter_def)
  qed
qed

theorem filter_by_suffix_witness:
  "file_name_filter ''D:/cam/photo.JpG'' \<and>
   str_lower (path_suffix ''D:/cam/photo.JpG'') = ''.jpg'' \<and>
   path_name ''D:/cam/photo.JpG'' = ''photo'' @ ''.JpG'' \<and>
   \<not> file_name_filter ''D:/cam/notes.txt'' \<and>
   str_lower (path_suffix ''D:/cam/notes.txt'') = ''.txt''"
  using filter_by_suffix [of "''D:/cam/photo.JpG''"] filter_by_suffix [of "''D:/cam/notes.txt''"]
  by (simp add: path_suffix_def path_name_def path_parts_def str_lower_def lower_char_def Let_def)

subsection \<open>C3: the destination in the archive\<close>

text \<open>
  C3: let \<open>name\<close> be the name of the uploaded file and \<open>(base, ext)\<close> its split into
  base and extension. If \<open>folder/name\<close> does not exist, it is the destination.
  Otherwise the destination is \<open>folder/base_k ext\<close> for the first \<open>k = 1, 2, ...\<close>
  for which that path does not exist: it does not exist, and the paths of all smaller
  counters do. In particular the destination is \<open>base_1 ext\<close> when only the name is
  taken and \<open>base_2 ext\<close> when the name and \<open>base_1 ext\<close> are taken; and a name
  \<open>stem.e\<close>, where \<open>stem\<close> is not made of dots only and \<open>e\<close> has no dot, is split into
  \<open>stem\<close> and \<open>.e\<close>.
\<close>

theorem archive_name_first_free:
  assumes "name = os_path_basename file_path" and "os_path_splitext name = (base, ext)"
  shows "(\<not> os_path_exists w (os_path_join folder name) \<longrightarrow>
        archive_destination w folder file_path = os_path_join folder name) \<and>
     (os_path_exists w (os_path_join folder name) \<longrightarrow>
        (\<exists>k. 1 \<le> k \<and>
           archive_destination w folder file_path = os_path_join folder (candidate base ext k) \<and>
           \<not> os_path_exists w (os_path_join folder (candidate base ext k)) \<and>
           (\<forall>j. 1 \<le> j \<and> j < k \<longrightarrow>
              os_path_exists w (os_path_join folder (candidate base ext j))))) \<and>
     (os_path_exists w (os_path_join folder name) \<and>
      \<not> os_path_exists w (os_path_join folder (base @ ''_1'' @ ext)) \<longrightarrow>
        archive_destination w folder file_path = os_path_join folder (base @ ''_1'' @ ext)) \<and>
     (os_path_exists w (os_path_join folder name) \<and>
      os_path_exists w (os_path_join folder (base @ ''_1'' @ ext)) \<and>
      \<not> os_path_exists w (os_path_join folder (base @ ''_2'' @ ext)) \<longrightarrow>
        archive_destination w folder file_path = os_path_join folder (base @ ''_2'' @ ext)) \<and>
     (\<forall>stem e. name = stem @ CHR ''.'' # e \<and> list_ex (\<lambda>c. c \<noteq> CHR ''.'') stem \<and>
        CHR ''.'' \<notin> set e \<longrightarrow> base = stem \<and> ext = CHR ''.'' # e)"
proof (intro conjI impI allI)
  note u = archive_destination_unfold [OF assms]
  let ?B = "join_prefix folder @ base"
  let ?k = "find_counter w ?B ext 1"
  show "archive_destination w folder file_path = os_path_join folder name"
    if "\<not> os_path_exists w (os_path_join folder name)"
    using that by (simp add: u(1))
  show "\<exists>k. 1 \<le> k \<and>
           archive_destination w folder file_path = os_path_join folder (candidate base ext k) \<and>
           \<not> os_path_exists w (os_path_join folder (candidate base ext k)) \<and>
           (\<forall>j. 1 \<le> j \<and> j < k \<longrightarrow>
              os_path_exists w (os_path_join folder (candidate base ext j)))"
    if "os_path_exists w (os_path_join folder name)"
  proof (intro exI [of _ ?k] conjI allI impI)
    show "1 \<le> ?k" by (rule find_counter_ge)
    show "archive_destination w folder file_path = os_path_join folder (candidate base ext ?k)"
      using that by (simp add: u(1))
    show "\<not> os_path_exists w (os_path_join folder (candidate base ext ?k))"
      unfolding u(2) by (rule find_counter_free)
    show "os_path_exists w (os_path_join folder (candidate base ext j))"
      if "1 \<le> j \<and> j < ?k" for j
      unfolding u(2) using that by (intro find_counter_taken [of 1]) simp_all
  qed
  have c1: "candidate base ext 1 = base @ ''_1'' @ ext"
    and c2: "candidate base ext 2 = base @ ''_2'' @ ext"
    unfolding candidate_def str_nat_1 str_nat_2 by simp_all
  from c1 have c1': "candidate base ext (Suc 0) = base @ ''_1'' @ ext" by simp
  show "archive_destination w folder file_path = os_path_join folder (base @ ''_1'' @ ext)"
    if "os_path_exists w (os_path_join folder name) \<and>
      \<not> os_path_exists w (os_path_join folder (base @ ''_1'' @ ext))"
  proof -
    from that have "\<not> os_path_exists w (candidate ?B ext 1)"
      unfolding c1 [symmetric] u(2) by simp
    then have "?k = 1" by (subst find_counter.simps) simp
    with that show ?thesis by (simp add: u(1) c1')
  qed
  show "archive_destination w folder file_path = os_path_join folder (base @ ''_2'' @ ext)"
    if "os_path_exists w (os_path_join folder name) \<and>
      os_path_exists w (os_path_join folder (base @ ''_1'' @ ext)) \<and>
      \<not> os_path_exists w (os_path_join folder (base @ ''_2'' @ ext))"
  proof -
    from that have "os_path_exists w (candidate ?B ext 1)"
      and "\<not> os_path_exists w (candidate ?B ext 2)"
      unfolding c1 [symmetric] c2 [symmetric] u(2) by simp_all
    then have "?k = find_counter w ?B ext (1 + 1)" and "find_counter w ?B ext 2 = 2"
      by (subst find_counter.simps, simp)+
    then have "?k = 2" by (simp add: numeral_2_eq_2)
    with that show ?thesis by (simp add: u(1) c2)
  qed
  show "base = stem" and "ext = CHR ''.'' # e"
    if "name = stem @ CHR ''.'' # e \<and> list_ex (\<lambda>c. c \<noteq> CHR ''.'') stem \<and> CHR ''.'' \<notin> set e"
    for stem e
  proof -
    have ns: "CHR ''/'' \<notin> set name"
      using assms(1) by (simp add: basename_no_sep)
    with that have "os_path_splitext (stem @ CHR ''.'' # e) = (stem, CHR ''.'' # e)"
      by (intro splitext_stem) auto
    with that assms(2) show "base = stem" and "ext = CHR ''.'' # e" by simp_all
  qed
qed

theorem archive_name_first_free_witness:
  "''photo.jpg'' = os_path_basename ''D:/cam/photo.jpg'' \<and>
   os_path_splitext ''photo.jpg'' = (''photo'', ''.jpg'') \<and>
   archive_destination (world_of []) ''D:/cam/uploaded'' ''D:/cam/photo.jpg''
     = ''D:/cam/uploaded/photo.jpg'' \<and>
   archive_destination (world_of [''D:/cam/uploaded/photo.jpg''])
       ''D:/cam/uploaded'' ''D:/cam/photo.jpg''
     = ''D:/cam/uploaded/photo_1.jpg'' \<and>
   archive_destination
       (world_of [''D:/cam/uploaded/photo.jpg'', ''D:/cam/uploaded/photo_1.jpg''])
       ''D:/cam/uploaded'' ''D:/cam/photo.jpg''
     = ''D:/cam/uploaded/photo_2.jpg''"
proof -
  have h1: "''photo.jpg'' = os_path_basename ''D:/cam/photo.jpg''"
    by (simp add: os_path_basename_def Let_def)
  have h2: "os_path_splitext ''photo.jpg'' = (''photo'', ''.jpg'')"
    by (simp add: os_path_splitext_def Let_def)
  note t = archive_name_first_free [OF h1 h2, of _ "''D:/cam/uploaded''"]
  from t [of "world_of []"]
  have a: "archive_destination (world_of []) ''D:/cam/uploaded'' ''D:/cam/photo.jpg''
     = ''D:/cam/uploaded/photo.jpg''"
    by (simp add: os_path_exists_def world_of_def os_path_join_def)
  from t [of "world_of [''D:/cam/uploaded/photo.jpg'']"]
  have b: "archive_destination (world_of [''D:/cam/uploaded/photo.jpg''])
       ''D:/cam/uploaded'' ''D:/cam/photo.jpg''
     = ''D:/cam/uploaded/photo_1.jpg''"
    by (simp add: os_path_exists_def world_of_def os_path_join_def)
  from t [of "world_of [''D:/cam/uploaded/photo.jpg'', ''D:/cam/uploaded/photo_1.jpg'']"]
  have c: "archive_destination
       (world_of [''D:/cam/uploaded/photo.jpg'', ''D:/cam/uploaded/photo_1.jpg''])
       ''D:/cam/uploaded'' ''D:/cam/photo.jpg''
     = ''D:/cam/uploaded/photo_2.jpg''"
    by (simp add: os_path_exists_def world_of_def os_path_join_def)
  from h1 h2 a b c show ?thesis by simp
qed

subsection \<open>C5: a failed upload\<close>

text \<open>
  C5: when curl ends with a non-zero exit status, the files are as before (the file is
  still at its path, nothing is moved), curl has been started once, and the only output
  is the path and the error text of curl.
\<close>

theorem failed_upload_leaves_file:
  assumes "file_path \<in> processing_files self"
    and "os_path_exists w file_path"
    and "subprocess_run env (curl_command self file_path) = Inr result"
    and "returncode result \<noteq> 0"
  shows "upload_file env self w file_path =
      Inr (self\<lparr>processing_files := processing_files self - {file_path}\<rparr>,
           w\<lparr>trace := trace w @
             [Run (curl_command self file_path),
              Print (''Failed to upload: '' @ file_path),
              Print (''Error: '' @ stderr result)]\<rparr>)"
  using assms
  by (simp add: upload_file_member upload_handled_def upload_try_failed)

theorem failed_upload_leaves_file_witness:
  "''D:/cam/photo.jpg'' \<in> processing_files (processing ''D:/cam/photo.jpg'') \<and>
   os_path_exists (world_of [''D:/cam/photo.jpg'']) ''D:/cam/photo.jpg'' \<and>
   subprocess_run (curl_exits 7 ''curl: (7) Failed to connect'')
       (curl_command (processing ''D:/cam/photo.jpg'') ''D:/cam/photo.jpg'')
     = Inr \<lparr>returncode = 7, stdout = [], stderr = ''curl: (7) Failed to connect''\<rparr> \<and>
   upload_file (curl_exits 7 ''curl: (7) Failed to connect'')
       (processing ''D:/cam/photo.jpg'')
       (world_of [''D:/cam/photo.jpg'']) ''D:/cam/photo.jpg''
     = Inr (main_uploader,
            \<lparr>files = {|''D:/cam/photo.jpg''|},
             trace =
               [Run (curl_command main_uploader ''D:/cam/photo.jpg''),
                Print ''Failed to upload: D:/cam/photo.jpg'',
                Print ''Error: curl: (7) Failed to connect'']\<rparr>)"
proof -
  have h1: "''D:/cam/photo.jpg'' \<in> processing_files (processing ''D:/cam/photo.jpg'')"
    by (simp add: processing_def)
  have h2: "os_path_exists (world_of [''D:/cam/photo.jpg'']) ''D:/cam/photo.jpg''"
    by (simp add: os_path_exists_def world_of_def)
  have h3: "subprocess_run (curl_exits 7 ''curl: (7) Failed to connect'')
       (curl_command (processing ''D:/cam/photo.jpg'') ''D:/cam/photo.jpg'')
     = Inr \<lparr>returncode = 7, stdout = [], stderr = ''curl: (7) Failed to connect''\<rparr>"
    by (simp add: curl_exits_def)
  have h4: "returncode \<lparr>returncode = 7, stdout = [], stderr = ''curl: (7) Failed to connect''\<rparr> \<noteq> 0"
    by simp
  from failed_upload_leaves_file [OF h1 h2 h3 h4] h1 h2 h3 show ?thesis
    by (simp add: main_uploader_def processing_def world_of_def curl_command_def)
qed

subsection \<open>C6: the file vanished\<close>

text \<open>
  C6: if the file does not exist when \<^verbatim>\<open>upload_file\<close> starts, the only effect is the
  log line, curl is not started, and the path is released. In particular this is so in
  \<^verbatim>\<open>on_created\<close> when the file is removed during the sleep of 30 seconds.
\<close>

theorem vanished_file_not_uploaded:
  "(file_path \<in> processing_files self \<and> \<not> os_path_exists w file_path \<longrightarrow>
      upload_file env self w file_path =
        Inr (self\<lparr>processing_files := processing_files self - {file_path}\<rparr>,
             w\<lparr>trace := trace w @ [Print (''File no longer exists: '' @ file_path)]\<rparr>)) \<and>
   (\<not> is_directory ev \<and> file_name_filter (src_path ev) \<and>
    path_str (src_path ev) \<notin> processing_files self \<and>
    path_str (src_path ev) |\<notin>| after_sleep env (files w) \<longrightarrow>
      on_created env self w ev =
        Inr (self,
             w\<lparr>files := after_sleep env (files w),
               trace := trace w @
                 [Sleep 30, Print (''File no longer exists: '' @ path_str (src_path ev))]\<rparr>))"
  by (simp add: upload_file_member upload_handled_def upload_try_vanished on_created_accepted
      time_sleep_def os_path_exists_def)

theorem vanished_file_not_uploaded_witness:
  "''D:/cam/photo.jpg'' \<in> processing_files (processing ''D:/cam/photo.jpg'') \<and>
   \<not> os_path_exists (world_of []) ''D:/cam/photo.jpg'' \<and>
   upload_file (curl_exits 0 []) (processing ''D:/cam/photo.jpg'')
       (world_of []) ''D:/cam/photo.jpg''
     = Inr (main_uploader,
            \<lparr>files = {||}, trace = [Print ''File no longer exists: D:/cam/photo.jpg'']\<rparr>) \<and>
   \<not> is_directory (created ''D:/cam/photo.jpg'') \<and>
   file_name_filter (src_path (created ''D:/cam/photo.jpg'')) \<and>
   path_str (src_path (created ''D:/cam/photo.jpg'')) \<notin> processing_files main_uploader \<and>
   path_str (src_path (created ''D:/cam/photo.jpg''))
     |\<notin>| after_sleep (removed_while_asleep ''D:/cam/photo.jpg'') (files (world_of [''D:/cam/photo.jpg''])) \<and>
   on_created (removed_while_asleep ''D:/cam/photo.jpg'') main_uploader
       (world_of [''D:/cam/photo.jpg'']) (created ''D:/cam/photo.jpg'')
     = Inr (main_uploader,
            \<lparr>files = {||},
             trace = [Sleep 30, Print ''File no longer exists: D:/cam/photo.jpg'']\<rparr>)"
  using vanished_file_not_uploaded [of "''D:/cam/photo.jpg''"
      "processing ''D:/cam/photo.jpg''" "world_of []"
      "curl_exits 0 []" "created ''D:/cam/photo.jpg''"]
    vanished_file_not_uploaded [of "''D:/cam/photo.jpg''" main_uploader
      "world_of [''D:/cam/photo.jpg'']" "removed_while_asleep ''D:/cam/photo.jpg''"
      "created ''D:/cam/photo.jpg''"]
  by (simp add: main_uploader_def processing_def created_def photo_accepted photo_str world_of_def
      os_path_exists_def removed_while_asleep_def)

subsection \<open>C7: what counts as a successful upload\<close>




subsection \<open>C8: releasing a path that was not acquired\<close>

text \<open>
  C8 says that releasing a path that is not in the in-flight set is a no-op that never
  raises. The release is \<^verbatim>\<open>self.processing_files.remove(file_path)\<close> (line 93), and
  \<^verbatim>\<open>remove\<close> raises \<^verbatim>\<open>KeyError\<close> for an element that is not in the set: with an
  empty in-flight set, \<^verbatim>\<open>upload_file\<close> ends with that exception.
\<close>

theorem release_absent_raises:
  "set_remove {} ''D:/cam/photo.jpg'' = Inl (KeyError ''D:/cam/photo.jpg'') \<and>
   upload_file (curl_exits 0 []) main_uploader (world_of []) ''D:/cam/photo.jpg''
     = Inl (KeyError ''D:/cam/photo.jpg'')"
  by (simp add: set_remove_def upload_file_not_member main_uploader_def processing_def)

text \<open>
  C8, amended: releasing a path that is in the in-flight set removes it and does not
  raise; releasing a path that is not in the set raises \<^verbatim>\<open>KeyError\<close> for that path,
  and \<^verbatim>\<open>upload_file\<close> passes the exception on to its caller.
\<close>

theorem release_acquired_only:
  "(x \<in> s \<longrightarrow> set_remove s x = Inr (s - {x})) \<and>
   (x \<notin> s \<longrightarrow> set_remove s x = Inl (KeyError x)) \<and>
   (file_path \<in> processing_files self \<longrightarrow>
      (\<exists>w'. upload_file env self w file_path =
         Inr (self\<lparr>processing_files := processing_files self - {file_path}\<rparr>, w'))) \<and>
   (file_path \<notin> processing_files self \<longrightarrow>
      upload_file env self w file_path = Inl (KeyError file_path))"
  by (simp add: set_remove_def upload_file_member upload_file_not_member)

theorem release_acquired_only_witness:
  "''a.jpg'' \<in> {''a.jpg'', ''b.png''} \<and>
   set_remove {''a.jpg'', ''b.png''} ''a.jpg'' = Inr ({''a.jpg'', ''b.png''} - {''a.jpg''}) \<and>
   ''c.jpg'' \<notin> {''a.jpg'', ''b.png''} \<and>
   set_remove {''a.jpg'', ''b.png''} ''c.jpg'' = Inl (KeyError ''c.jpg'') \<and>
   ''D:/cam/photo.jpg'' \<in> processing_files (processing ''D:/cam/photo.jpg'') \<and>
   (\<exists>w'. upload_file (curl_exits 0 []) (processing ''D:/cam/photo.jpg'')
            (world_of [''D:/cam/photo.jpg'']) ''D:/cam/photo.jpg''
          = Inr (main_uploader, w')) \<and>
   ''D:/cam/photo.jpg'' \<notin> processing_files main_uploader \<and>
   upload_file (curl_exits 0 []) main_uploader (world_of []) ''D:/cam/photo.jpg''
     = Inl (KeyError ''D:/cam/photo.jpg'')"
  using release_acquired_only [of "''a.jpg''" "{''a.jpg'', ''b.png''}"
      "''D:/cam/photo.jpg''" "processing ''D:/cam/photo.jpg''"
      "curl_exits 0 []" "world_of [''D:/cam/photo.jpg'']"]
    release_acquired_only [of "''c.jpg''" "{''a.jpg'', ''b.png''}"
      "''D:/cam/photo.jpg''" "main_uploader" "curl_exits 0 []" "world_of []"]
  by (simp add: main_uploader_def processing_def)

subsection \<open>C10: a name that is only a dot and an extension\<close>

text \<open>
  C10: for a file whose name is just \<^verbatim>\<open>.jpg\<close>, \<^verbatim>\<open>.jpeg\<close> or \<^verbatim>\<open>.png\<close> (in any case)
  the suffix that pathlib computes is empty, as the only dot is the first character of
  the name. The event is dropped by the filter: nothing is added to the in-flight set,
  nothing is uploaded, and handler and world stay as they were.
\<close>

theorem bare_suffix_name_ignored:
  "(str_lower (path_name (src_path ev)) \<in> set image_suffixes \<longrightarrow>
      path_suffix (src_path ev) = [] \<and> on_created env self w ev = Inr (self, w)) \<and>
   (name \<in> set image_suffixes \<longrightarrow>
      path_name (dir @ ''/'' @ name) = name \<and>
      on_created env self w \<lparr>is_directory = False, src_path = dir @ ''/'' @ name\<rparr>
        = Inr (self, w))"
proof -
  have A: "path_suffix p = [] \<and> \<not> file_name_filter p"
    if "str_lower (path_name p) \<in> set image_suffixes" for p
  proof -
    from image_suffix_shape [OF that] obtain rest
      where "path_name p = [] @ CHR ''.'' # rest" "CHR ''.'' \<notin> set rest" by auto
    then have "path_suffix p =
        (if ([]::string) \<noteq> [] \<and> rest \<noteq> [] then CHR ''.'' # rest else [])"
      by (rule path_suffix_stem)
    then have "path_suffix p = []" by simp
    then show ?thesis
      by (simp add: file_name_filter_def image_suffixes_def str_lower_def)
  qed
  have B: "path_name (dir @ ''/'' @ name) = name" if "name \<in> set image_suffixes"
    using that by (intro path_name_last_component) (auto simp: image_suffixes_def)
  have C: "str_lower name \<in> set image_suffixes" if "name \<in> set image_suffixes"
    using that by (auto simp: image_suffixes_def str_lower_def lower_char_def)
  show ?thesis
    using A B C by (auto simp: on_created_ignored)
qed

theorem bare_suffix_name_ignored_witness:
  "str_lower (path_name (src_path (created ''D:/cam/.JPG''))) \<in> set image_suffixes \<and>
   path_suffix (src_path (created ''D:/cam/.JPG'')) = [] \<and>
   on_created (curl_exits 0 []) main_uploader (world_of [''D:/cam/.JPG''])
       (created ''D:/cam/.JPG'')
     = Inr (main_uploader, world_of [''D:/cam/.JPG'']) \<and>
   ''.png'' \<in> set image_suffixes \<and>
   path_name (''D:/cam'' @ ''/'' @ ''.png'') = ''.png'' \<and>
   on_created (curl_exits 0 []) main_uploader (world_of [''D:/cam/.png''])
       \<lparr>is_directory = False, src_path = ''D:/cam'' @ ''/'' @ ''.png''\<rparr>
     = Inr (main_uploader, world_of [''D:/cam/.png''])"
  using bare_suffix_name_ignored [of "created ''D:/cam/.JPG''" "curl_exits 0 []" main_uploader
      "world_of [''D:/cam/.JPG'']" "''.png''" "''D:/cam''"]
    bare_suffix_name_ignored [of "created ''D:/cam/.JPG''" "curl_exits 0 []" main_uploader
      "world_of [''D:/cam/.png'']" "''.png''" "''D:/cam''"]
  by (simp add: created_def image_suffixes_def path_name_def path_parts_def str_lower_def
      lower_char_def)

end
